theory Spec2Isabelle
  imports Complex_Main
begin

section \<open>The trace scanners of the geometry-optimisation notebooks\<close>

text \<open>
  The notebooks \<^verbatim>\<open>code/Benzene-GeomOpt.ipynb\<close> and
  \<^verbatim>\<open>code/Nitrobenzene-GeomOpt_complete.ipynb\<close> define the same two functions,
  \<^verbatim>\<open>plot_R(a, b)\<close> and \<^verbatim>\<open>plot_energy()\<close>. Both open the file
  \<^verbatim>\<open>molecule_name + '_geometry_optimization.dat'\<close>, iterate over its lines and pick
  numbers out of some of them with \<^verbatim>\<open>str.find\<close>, \<^verbatim>\<open>str.strip\<close>,
  \<^verbatim>\<open>str.split\<close>, \<^verbatim>\<open>str.startswith\<close>, list indexing and \<^verbatim>\<open>float\<close>.

  A line is a \<^typ>\<open>string\<close>; its characters are read as the code points 0 to 255 of a
  Python \<^verbatim>\<open>str\<close>. A trace is the list of lines that iterating over the open file yields.
\<close>

subsection \<open>Exceptions\<close>

text \<open>
  The exceptions the two functions can raise: \<^verbatim>\<open>IndexError\<close> from a list index out of
  range, \<^verbatim>\<open>ValueError\<close> from \<^verbatim>\<open>float\<close>, \<^verbatim>\<open>FileNotFoundError\<close> from
  \<^verbatim>\<open>open\<close>. A computation that may raise returns \<open>Inl\<close> of the exception or \<open>Inr\<close> of
  its value.
\<close>

datatype py_error = IndexError | ValueError | FileNotFoundError

subsection \<open>The string and list operations of Python that the code calls\<close>

text \<open>
  \<^verbatim>\<open>str.isspace\<close> on one character: among the code points below 256 the whitespace
  characters are 9 to 13, 28 to 32, 133 and 160.
\<close>

definition isspace :: "char \<Rightarrow> bool" where
  "isspace c = (of_char c \<in> {9, 10, 11, 12, 13, 28, 29, 30, 31, 32, 133, 160 :: nat})"

text \<open>
  \<^verbatim>\<open>s.split()\<close> with no argument: the maximal runs of non-whitespace characters, in
  order. \<open>split_from cur s\<close> scans \<open>s\<close> with the token \<open>cur\<close> under construction.
\<close>

fun split_from :: "string \<Rightarrow> string \<Rightarrow> string list" where
  "split_from cur [] = (if cur = [] then [] else [cur])"
| "split_from cur (c # cs) =
     (if isspace c then (if cur = [] then split_from [] cs else cur # split_from [] cs)
      else split_from (cur @ [c]) cs)"

definition split :: "string \<Rightarrow> string list" where
  "split s = split_from [] s"

text \<open>\<^verbatim>\<open>s.strip()\<close>: \<open>s\<close> without its leading and trailing whitespace.\<close>

definition strip :: "string \<Rightarrow> string" where
  "strip s = rev (dropWhile isspace (rev (dropWhile isspace s)))"

text \<open>\<^verbatim>\<open>s.startswith(p)\<close>.\<close>

fun startswith :: "string \<Rightarrow> string \<Rightarrow> bool" where
  "startswith s [] = True"
| "startswith [] (p # ps) = False"
| "startswith (c # cs) (p # ps) = (c = p \<and> startswith cs ps)"

text \<open>
  \<^verbatim>\<open>s.find(sub)\<close>: the lowest index at which \<open>sub\<close> occurs in \<open>s\<close>, or \<open>-1\<close> when it
  does not occur.
\<close>

fun find_str :: "string \<Rightarrow> string \<Rightarrow> int" where
  "find_str [] sub = (if sub = [] then 0 else - 1)"
| "find_str (c # cs) sub =
     (if startswith (c # cs) sub then 0
      else (let r = find_str cs sub in if r < 0 then - 1 else r + 1))"

text \<open>\<^verbatim>\<open>str(i)\<close> of an integer: its decimal digits, after a minus sign when it is negative.\<close>

fun digits :: "nat \<Rightarrow> string" where
  "digits n =
     (if n < 10 then [''0123456789'' ! n]
      else digits (n div 10) @ [''0123456789'' ! (n mod 10)])"

declare digits.simps [simp del]

definition str :: "int \<Rightarrow> string" where
  "str i = (if i < 0 then CHR ''-'' # digits (nat (- i)) else digits (nat i))"

text \<open>
  \<^verbatim>\<open>xs[i]\<close> for an index \<open>i \<ge> 0\<close> (the code only uses the constants 0, 1, 3 and 6):
  \<^verbatim>\<open>IndexError\<close> when \<open>i\<close> is not below the length.
\<close>

definition getitem :: "'a list \<Rightarrow> nat \<Rightarrow> py_error + 'a" where
  "getitem xs i = (if i < length xs then Inr (xs ! i) else Inl IndexError)"

text \<open>
  \<^verbatim>\<open>float(s)\<close> is Python's own parser and rounds to a double. It is a parameter of the
  model: \<open>float s\<close> is \<open>Some\<close> of the number that \<open>s\<close> parses to, or \<open>None\<close> where Python
  raises \<^verbatim>\<open>ValueError\<close>. Every theorem below holds for every such parser.
\<close>

definition to_float :: "(string \<Rightarrow> 'v option) \<Rightarrow> string \<Rightarrow> py_error + 'v" where
  "to_float float s = (case float s of None \<Rightarrow> Inl ValueError | Some v \<Rightarrow> Inr v)"

subsection \<open>\<^verbatim>\<open>plot_R\<close>\<close>

text \<open>
  \<^verbatim>\<open>
  def plot_R(a, b):
      with open(molecule_name + '_geometry_optimization.dat') as f:
          pair_notation = 'R(' + str(a) + ',' + str(b) + ')'
          rows_with_R_pairs = [line.split() for line in f if line.find(pair_notation) > 1 and
                               line.strip().split()[1].startswith(pair_notation)]
          bond_distances = []
          bond_distances.append(float(rows_with_R_pairs[0][3]))
          for item in rows_with_R_pairs:
              bond_distances.append(float(item[6]))
          return bond_distances
  \<close>
\<close>

definition pair_notation :: "int \<Rightarrow> int \<Rightarrow> string" where
  "pair_notation a b = ''R('' @ str a @ '','' @ str b @ '')''"

text \<open>
  The condition of the comprehension on one line. \<^verbatim>\<open>and\<close> evaluates its right operand
  only when the left one is true; the right operand indexes the tokens at 1 and can raise.
\<close>

definition selects :: "string \<Rightarrow> string \<Rightarrow> py_error + bool" where
  "selects tag line =
     (if find_str line tag > 1
      then (case getitem (split (strip line)) 1 of
              Inl e \<Rightarrow> Inl e
            | Inr tok \<Rightarrow> Inr (startswith tok tag))
      else Inr False)"

text \<open>The comprehension: the lines in order; the first exception ends it.\<close>

fun rows_with_R_pairs :: "string \<Rightarrow> string list \<Rightarrow> py_error + string list list" where
  "rows_with_R_pairs tag [] = Inr []"
| "rows_with_R_pairs tag (line # f) =
     (case selects tag line of
        Inl e \<Rightarrow> Inl e
      | Inr sel \<Rightarrow>
          (case rows_with_R_pairs tag f of
             Inl e \<Rightarrow> Inl e
           | Inr rows \<Rightarrow> Inr (if sel then split line # rows else rows)))"

text \<open>The \<^verbatim>\<open>for\<close> loop: \<open>bond_distances\<close> is the list built so far.\<close>

fun append_items :: "(string \<Rightarrow> 'v option) \<Rightarrow> 'v list \<Rightarrow> string list list \<Rightarrow> py_error + 'v list" where
  "append_items float bond_distances [] = Inr bond_distances"
| "append_items float bond_distances (item # items) =
     (case getitem item 6 of
        Inl e \<Rightarrow> Inl e
      | Inr tok \<Rightarrow>
          (case to_float float tok of
             Inl e \<Rightarrow> Inl e
           | Inr v \<Rightarrow> append_items float (bond_distances @ [v]) items))"

text \<open>The body of \<^verbatim>\<open>plot_R\<close> on the lines \<open>f\<close> of the open file.\<close>

definition plot_R :: "(string \<Rightarrow> 'v option) \<Rightarrow> string list \<Rightarrow> int \<Rightarrow> int \<Rightarrow> py_error + 'v list" where
  "plot_R float f a b =
     (case rows_with_R_pairs (pair_notation a b) f of
        Inl e \<Rightarrow> Inl e
      | Inr rows \<Rightarrow>
          (case getitem rows 0 of
             Inl e \<Rightarrow> Inl e
           | Inr row0 \<Rightarrow>
               (case getitem row0 3 of
                  Inl e \<Rightarrow> Inl e
                | Inr tok \<Rightarrow>
                    (case to_float float tok of
                       Inl e \<Rightarrow> Inl e
                     | Inr v \<Rightarrow> append_items float [v] rows))))"

subsection \<open>\<^verbatim>\<open>plot_energy\<close>\<close>

text \<open>
  \<^verbatim>\<open>
  def plot_energy():
      with open(molecule_name + '_geometry_optimization.dat') as f:
          energy_values = [ float(line.split()[3]) for line in f
                            if line.strip().startswith('Current energy') ]
          return energy_values
  \<close>
\<close>

definition energy_line :: "string \<Rightarrow> bool" where
  "energy_line line = startswith (strip line) ''Current energy''"

fun energy_values :: "(string \<Rightarrow> 'v option) \<Rightarrow> string list \<Rightarrow> py_error + 'v list" where
  "energy_values float [] = Inr []"
| "energy_values float (line # f) =
     (if energy_line line
      then (case getitem (split line) 3 of
              Inl e \<Rightarrow> Inl e
            | Inr tok \<Rightarrow>
                (case to_float float tok of
                   Inl e \<Rightarrow> Inl e
                 | Inr v \<Rightarrow>
                     (case energy_values float f of
                        Inl e \<Rightarrow> Inl e
                      | Inr vs \<Rightarrow> Inr (v # vs))))
      else energy_values float f)"

definition plot_energy :: "(string \<Rightarrow> 'v option) \<Rightarrow> string list \<Rightarrow> py_error + 'v list" where
  "plot_energy float f = energy_values float f"

subsection \<open>The calls, with the file system\<close>

text \<open>
  What a call reads: the global \<^verbatim>\<open>molecule_name\<close> and the files, each the list of its
  lines. \<^verbatim>\<open>open\<close> for reading raises \<^verbatim>\<open>FileNotFoundError\<close> on a missing file. A call
  returns its result and the state it leaves; neither function writes.
\<close>

record world =
  molecule_name :: string
  files :: "string \<Rightarrow> string list option"

definition open_read :: "world \<Rightarrow> string \<Rightarrow> py_error + string list" where
  "open_read w path = (case files w path of None \<Rightarrow> Inl FileNotFoundError | Some f \<Rightarrow> Inr f)"

definition call_plot_R ::
  "(string \<Rightarrow> 'v option) \<Rightarrow> int \<Rightarrow> int \<Rightarrow> world \<Rightarrow> (py_error + 'v list) \<times> world" where
  "call_plot_R float a b w =
     (case open_read w (molecule_name w @ ''_geometry_optimization.dat'') of
        Inl e \<Rightarrow> (Inl e, w)
      | Inr f \<Rightarrow> (plot_R float f a b, w))"

definition call_plot_energy ::
  "(string \<Rightarrow> 'v option) \<Rightarrow> world \<Rightarrow> (py_error + 'v list) \<times> world" where
  "call_plot_energy float w =
     (case open_read w (molecule_name w @ ''_geometry_optimization.dat'') of
        Inl e \<Rightarrow> (Inl e, w)
      | Inr f \<Rightarrow> (plot_energy float f, w))"

subsection \<open>A parser of plain decimal numerals\<close>

text \<open>
  One parser to run the functions on concrete traces: it accepts the numerals of the shape
  \<^verbatim>\<open>[+-]digits[.digits]\<close> and \<^verbatim>\<open>[+-].digits\<close>, which \<^verbatim>\<open>float\<close> accepts too, and gives
  the rational number they denote (\<^verbatim>\<open>float\<close> gives the double nearest to it). It rejects
  everything else.
\<close>

definition isdigit :: "char \<Rightarrow> bool" where
  "isdigit c = (c \<in> set ''0123456789'')"

fun number_of :: "nat \<Rightarrow> string \<Rightarrow> nat" where
  "number_of acc [] = acc"
| "number_of acc (c # cs) = number_of (10 * acc + (of_char c - 48)) cs"

definition unsigned_decimal :: "string \<Rightarrow> rat option" where
  "unsigned_decimal s =
     (let ip = takeWhile isdigit s in
      case dropWhile isdigit s of
        [] \<Rightarrow> if ip = [] then None else Some (of_nat (number_of 0 ip))
      | c # fp \<Rightarrow>
          if c = CHR ''.'' \<and> list_all isdigit fp \<and> \<not> (ip = [] \<and> fp = [])
          then Some (of_nat (number_of 0 (ip @ fp)) / 10 ^ length fp)
          else None)"

definition float_decimal :: "string \<Rightarrow> rat option" where
  "float_decimal s =
     (case s of
        [] \<Rightarrow> None
      | c # r \<Rightarrow>
          if c = CHR ''-'' then map_option uminus (unsigned_decimal r)
          else if c = CHR ''+'' then unsigned_decimal r
          else unsigned_decimal s)"

section \<open>Facts about the operations\<close>

subsection \<open>Tokens and stripping\<close>

text \<open>
  A run of characters without whitespace stays in one token, whitespace at either end of a
  string adds no token, and so \<^verbatim>\<open>line.strip().split()\<close> is \<^verbatim>\<open>line.split()\<close>.
\<close>

lemma split_from_nospace:
  "\<forall>c\<in>set tok. \<not> isspace c \<Longrightarrow> split_from cur (tok @ rest) = split_from (cur @ tok) rest"
  by (induction tok arbitrary: cur) auto

lemma split_from_spaces: "\<forall>c\<in>set ws. isspace c \<Longrightarrow> split_from [] ws = []"
  by (induction ws) auto

lemma split_from_trailing:
  "\<forall>c\<in>set ws. isspace c \<Longrightarrow> split_from cur (s @ ws) = split_from cur s"
proof (induction s arbitrary: cur)
  case Nil
  then show ?case by (cases ws) (auto simp: split_from_spaces)
next
  case (Cons c s)
  then show ?case by simp
qed

lemma split_from_leading: "split_from [] (dropWhile isspace s) = split_from [] s"
  by (induction s) auto

lemma strip_decomp:
  "\<exists>ws. (\<forall>c\<in>set ws. isspace c) \<and> dropWhile isspace s = strip s @ ws"
proof -
  let ?t = "dropWhile isspace s"
  have "rev ?t = takeWhile isspace (rev ?t) @ dropWhile isspace (rev ?t)"
    by simp
  then have "?t = strip s @ rev (takeWhile isspace (rev ?t))"
    unfolding strip_def by (metis rev_append rev_rev_ident)
  moreover have "\<forall>c\<in>set (rev (takeWhile isspace (rev ?t))). isspace c"
    by (auto dest: set_takeWhileD)
  ultimately show ?thesis by blast
qed

lemma split_strip: "split (strip s) = split s"
proof -
  obtain ws where ws: "\<forall>c\<in>set ws. isspace c" "dropWhile isspace s = strip s @ ws"
    using strip_decomp by blast
  have "split s = split_from [] (dropWhile isspace s)"
    by (simp add: split_def split_from_leading)
  also have "\<dots> = split_from [] (strip s)"
    using ws by (simp add: split_from_trailing)
  finally show ?thesis by (simp add: split_def)
qed

subsection \<open>Prefixes and occurrences\<close>

text \<open>
  \<open>find_str s sub\<close> is never below \<open>-1\<close>; when it is not negative, \<open>sub\<close> occurs in
  \<open>s\<close> at that index; it is negative only when \<open>sub\<close> does not occur in \<open>s\<close>; and no
  occurrence starts before it.
\<close>

lemma startswith_iff: "startswith s p \<longleftrightarrow> (\<exists>r. s = p @ r)"
  by (induction s p rule: startswith.induct) auto

lemma find_str_ge: "- 1 \<le> find_str s sub"
  by (induction s) (auto simp: Let_def)

lemma find_str_occurs:
  "0 \<le> find_str s sub \<Longrightarrow> \<exists>pre post. s = pre @ sub @ post \<and> int (length pre) = find_str s sub"
proof (induction s)
  case Nil
  then show ?case by (auto split: if_splits)
next
  case (Cons c s)
  show ?case
  proof (cases "startswith (c # s) sub")
    case True
    then obtain r where "c # s = sub @ r" by (auto simp: startswith_iff)
    moreover have "find_str (c # s) sub = 0"
      using True by simp
    ultimately have "c # s = [] @ sub @ r \<and> int (length ([]::string)) = find_str (c # s) sub"
      by simp
    then show ?thesis by blast
  next
    case False
    with Cons.prems have nn: "0 \<le> find_str s sub" and eq: "find_str (c # s) sub = find_str s sub + 1"
      by (auto simp: Let_def split: if_splits)
    from Cons.IH[OF nn] obtain pre post where "s = pre @ sub @ post" "int (length pre) = find_str s sub"
      by blast
    then have "c # s = (c # pre) @ sub @ post \<and> int (length (c # pre)) = find_str (c # s) sub"
      using eq by simp
    then show ?thesis by blast
  qed
qed

lemma find_str_absent:
  "find_str s sub < 0 \<Longrightarrow> s \<noteq> pre @ sub @ post"
proof (induction s arbitrary: pre)
  case Nil
  then show ?case by (auto split: if_splits)
next
  case (Cons c s)
  then have ns: "\<not> startswith (c # s) sub" and neg: "find_str s sub < 0"
    by (auto simp: Let_def split: if_splits)
  show ?case
  proof (cases pre)
    case Nil
    then show ?thesis using ns by (auto simp: startswith_iff)
  next
    case (Cons p pre')
    then show ?thesis using Cons.IH[OF neg, of pre'] by auto
  qed
qed

lemma find_str_lowest:
  "s = pre @ sub @ post \<Longrightarrow> 0 \<le> find_str s sub \<and> find_str s sub \<le> int (length pre)"
proof (induction pre arbitrary: s)
  case Nil
  then have "startswith s sub" by (simp add: startswith_iff)
  then have "find_str s sub = 0" by (cases s; cases sub) auto
  then show ?case by simp
next
  case (Cons p pre)
  then obtain s' where s': "s = p # s'" "s' = pre @ sub @ post" by auto
  from Cons.IH [OF s'(2)] show ?case
    unfolding s'(1) by (auto simp: Let_def)
qed

subsection \<open>The comprehension and the loop of \<^verbatim>\<open>plot_R\<close>\<close>

lemma selects_error: "selects tag line = Inl e \<Longrightarrow> e = IndexError"
  by (auto simp: selects_def getitem_def split: if_splits)

lemma rows_error: "rows_with_R_pairs tag f = Inl e \<Longrightarrow> e = IndexError"
  by (induction f) (auto dest: selects_error split: sum.splits)

lemma rows_raise:
  "line \<in> set f \<Longrightarrow> selects tag line = Inl IndexError \<Longrightarrow> rows_with_R_pairs tag f = Inl IndexError"
  by (induction f) (auto dest: selects_error rows_error split: sum.splits)

lemma rows_ok:
  "\<forall>line\<in>set f. selects tag line \<noteq> Inl IndexError \<Longrightarrow>
   rows_with_R_pairs tag f = Inr (map split (filter (\<lambda>l. selects tag l = Inr True) f))"
  by (induction f) (auto dest: selects_error split: sum.splits)

lemma append_items_ok:
  "\<forall>item\<in>set items. 6 < length item \<and> float (item ! 6) \<noteq> None \<Longrightarrow>
   \<exists>vs. append_items float acc items = Inr (acc @ vs) \<and>
        map Some vs = map (\<lambda>item. float (item ! 6)) items"
proof (induction items arbitrary: acc)
  case Nil
  then show ?case by simp
next
  case (Cons item items)
  then obtain v where v: "float (item ! 6) = Some v" and len: "6 < length item" by auto
  from Cons obtain vs where "append_items float (acc @ [v]) items = Inr ((acc @ [v]) @ vs)"
    "map Some vs = map (\<lambda>item. float (item ! 6)) items"
    by fastforce
  then have "append_items float acc (item # items) = Inr (acc @ (v # vs)) \<and>
     map Some (v # vs) = map (\<lambda>item. float (item ! 6)) (item # items)"
    using v len by (simp add: getitem_def to_float_def)
  then show ?case by blast
qed

text \<open>
  The same in closed form: what the condition gives on a line, what the comprehension gives
  on a trace, and what the loop gives on the rows, the first row at which it raises included.
\<close>

lemma selects_cases:
  "selects tag line =
     (if 1 < find_str line tag \<and> length (split line) < 2 then Inl IndexError
      else Inr (1 < find_str line tag \<and> 2 \<le> length (split line) \<and> startswith (split line ! 1) tag))"
  by (auto simp: selects_def split_strip getitem_def)

lemma rows_cases:
  "rows_with_R_pairs tag f =
     (if \<exists>line\<in>set f. 1 < find_str line tag \<and> length (split line) < 2 then Inl IndexError
      else Inr (map split (filter (\<lambda>line. 1 < find_str line tag \<and> 2 \<le> length (split line)
                                        \<and> startswith (split line ! 1) tag) f)))"
  by (induction f) (auto simp: selects_cases)

lemma append_items_cases:
  "append_items float acc items =
     (case dropWhile (\<lambda>item. 7 \<le> length item \<and> float (item ! 6) \<noteq> None) items of
        [] \<Rightarrow> Inr (acc @ map (\<lambda>item. the (float (item ! 6))) items)
      | bad # _ \<Rightarrow> if length bad < 7 then Inl IndexError else Inl ValueError)"
proof (induction items arbitrary: acc)
  case Nil
  then show ?case by simp
next
  case (Cons item items)
  let ?ok = "\<lambda>item. 7 \<le> length item \<and> float (item ! 6) \<noteq> None"
  show ?case
  proof (cases "?ok item")
    case True
    then obtain v where v: "float (item ! 6) = Some v" by auto
    define rest where "rest = dropWhile ?ok items"
    have d: "dropWhile ?ok (item # items) = rest"
      using True by (simp add: rest_def del: not_None_eq)
    have "append_items float acc (item # items) = append_items float (acc @ [v]) items"
      using True v by (simp add: getitem_def to_float_def)
    also have "\<dots> = (case rest of
        [] \<Rightarrow> Inr ((acc @ [v]) @ map (\<lambda>item. the (float (item ! 6))) items)
      | bad # _ \<Rightarrow> if length bad < 7 then Inl IndexError else Inl ValueError)"
      unfolding rest_def by (rule Cons.IH)
    also have "\<dots> = (case rest of
        [] \<Rightarrow> Inr (acc @ map (\<lambda>item. the (float (item ! 6))) (item # items))
      | bad # _ \<Rightarrow> if length bad < 7 then Inl IndexError else Inl ValueError)"
      using v by (cases rest) simp_all
    finally show ?thesis unfolding d .
  next
    case False
    then have d: "dropWhile ?ok (item # items) = item # items"
      by (simp only: dropWhile.simps if_False)
    from False show ?thesis
      unfolding d by (auto simp: getitem_def to_float_def)
  qed
qed

subsection \<open>The comprehension of \<^verbatim>\<open>plot_energy\<close>\<close>

lemma energy_values_filter: "energy_values float (filter energy_line f) = energy_values float f"
  by (induction f) (auto split: sum.splits)

lemma energy_values_ok:
  "\<forall>line\<in>set f. energy_line line \<longrightarrow> 3 < length (split line) \<and> float (split line ! 3) \<noteq> None \<Longrightarrow>
   \<exists>vs. energy_values float f = Inr vs \<and>
        map Some vs = map (\<lambda>line. float (split line ! 3)) (filter energy_line f)"
proof (induction f)
  case Nil
  then show ?case by simp
next
  case (Cons line f)
  then obtain vs where vs: "energy_values float f = Inr vs"
    "map Some vs = map (\<lambda>line. float (split line ! 3)) (filter energy_line f)"
    by auto
  show ?case
  proof (cases "energy_line line")
    case True
    with Cons.prems obtain v where "float (split line ! 3) = Some v" "3 < length (split line)"
      by auto
    then have "energy_values float (line # f) = Inr (v # vs) \<and>
      map Some (v # vs) = map (\<lambda>line. float (split line ! 3)) (filter energy_line (line # f))"
      using True vs by (simp add: getitem_def to_float_def)
    then show ?thesis by blast
  next
    case False
    then show ?thesis using vs by simp
  qed
qed

lemma to_float_error: "to_float float s = Inl e \<Longrightarrow> e = ValueError"
  by (auto simp: to_float_def split: option.splits)

lemma getitem_error: "getitem xs i = Inl e \<Longrightarrow> e = IndexError"
  by (auto simp: getitem_def split: if_splits)

lemma energy_values_error:
  "energy_values float f = Inl e \<Longrightarrow> e = IndexError \<or> e = ValueError"
  by (induction f arbitrary: e)
     (auto dest: to_float_error getitem_error split: sum.splits if_splits)

lemma energy_values_bad:
  "line \<in> set f \<Longrightarrow> energy_line line \<Longrightarrow>
   length (split line) \<le> 3 \<or> float (split line ! 3) = None \<Longrightarrow>
   \<exists>e. energy_values float f = Inl e"
  by (induction f) (auto simp: getitem_def to_float_def split: sum.splits)

subsection \<open>The tag of a pair\<close>

text \<open>
  The tag of any two integers starts with \<^verbatim>\<open>R\<close> and has no whitespace in it. So in the
  line made of \<^verbatim>\<open>1\<close>, the tag and five more tokens, the tag is the second token and is
  found at index 5.
\<close>

lemma digit_nospace: "k < 10 \<Longrightarrow> \<not> isspace (''0123456789'' ! k)"
proof -
  assume "k < 10"
  then have "k \<in> {0, 1, 2, 3, 4, 5, 6, 7, 8, 9}" by auto
  then show ?thesis by (auto simp: isspace_def)
qed

lemma digits_nospace: "c \<in> set (digits n) \<Longrightarrow> \<not> isspace c"
proof (induction n arbitrary: c rule: digits.induct)
  case (1 n)
  show ?case
  proof (cases "n < 10")
    case True
    then have "digits n = [''0123456789'' ! n]"
      by (subst digits.simps) simp
    with "1.prems" True show ?thesis by (simp add: digit_nospace)
  next
    case False
    then have "digits n = digits (n div 10) @ [''0123456789'' ! (n mod 10)]"
      by (subst digits.simps) simp
    with "1.prems" have "c \<in> set (digits (n div 10)) \<or> c = ''0123456789'' ! (n mod 10)"
      by auto
    then show ?thesis
      using "1.IH" [OF False] by (auto simp: digit_nospace)
  qed
qed

text \<open>Read as a decimal numeral, \<open>digits n\<close> denotes \<open>n\<close>.\<close>

lemma number_of_snoc: "number_of acc (xs @ [c]) = 10 * number_of acc xs + (of_char c - 48)"
  by (induction xs arbitrary: acc) auto

lemma digit_value: "k < 10 \<Longrightarrow> of_char (''0123456789'' ! k) - 48 = k"
proof -
  assume "k < 10"
  then have "k \<in> {0, 1, 2, 3, 4, 5, 6, 7, 8, 9}" by auto
  then show ?thesis by auto
qed

lemma digits_value: "number_of 0 (digits n) = n"
proof (induction n rule: digits.induct)
  case (1 n)
  show ?case
  proof (cases "n < 10")
    case True
    then have "digits n = [''0123456789'' ! n]"
      by (subst digits.simps) simp
    with True show ?thesis by (simp add: digit_value)
  next
    case False
    then have "digits n = digits (n div 10) @ [''0123456789'' ! (n mod 10)]"
      by (subst digits.simps) simp
    then show ?thesis
      using "1.IH" [OF False] by (simp add: number_of_snoc digit_value)
  qed
qed

lemma isdigit_digit: "k < 10 \<Longrightarrow> isdigit (''0123456789'' ! k)"
proof -
  assume "k < 10"
  then have "k \<in> {0, 1, 2, 3, 4, 5, 6, 7, 8, 9}" by auto
  then show ?thesis by (auto simp: isdigit_def)
qed

lemma digit_zero: "k < 10 \<Longrightarrow> (''0123456789'' ! k = CHR ''0'') = (k = 0)"
proof -
  assume "k < 10"
  then have "k \<in> {0, 1, 2, 3, 4, 5, 6, 7, 8, 9}" by auto
  then show ?thesis by auto
qed

lemma digits_decimal:
  "digits n \<noteq> [] \<and> list_all isdigit (digits n) \<and> (hd (digits n) = CHR ''0'') = (n = 0)"
proof (induction n rule: digits.induct)
  case (1 n)
  show ?case
  proof (cases "n < 10")
    case True
    then have "digits n = [''0123456789'' ! n]"
      by (subst digits.simps) simp
    with True show ?thesis by (simp add: isdigit_digit digit_zero)
  next
    case False
    then have d: "digits n = digits (n div 10) @ [''0123456789'' ! (n mod 10)]"
      by (subst digits.simps) simp
    from False have "n div 10 \<noteq> 0" by simp
    with "1.IH" [OF False] False show ?thesis
      unfolding d by (simp add: isdigit_digit)
  qed
qed

text \<open>
  \<open>str i\<close> is the decimal numeral of \<open>i\<close>: digits that denote \<open>\<bar>i\<bar>\<close>, with no leading
  zero unless \<open>i = 0\<close>, after a minus sign when \<open>i < 0\<close>.
\<close>

lemma str_decimal:
  "\<exists>d. str i = (if i < 0 then CHR ''-'' # d else d) \<and> d \<noteq> [] \<and> list_all isdigit d
       \<and> int (number_of 0 d) = \<bar>i\<bar> \<and> (hd d = CHR ''0'') = (i = 0)"
proof -
  let ?d = "digits (nat \<bar>i\<bar>)"
  have "str i = (if i < 0 then CHR ''-'' # ?d else ?d)"
    by (simp add: str_def abs_if)
  moreover have "?d \<noteq> [] \<and> list_all isdigit ?d \<and> (hd ?d = CHR ''0'') = (i = 0)"
    using digits_decimal [of "nat \<bar>i\<bar>"] by simp
  moreover have "int (number_of 0 ?d) = \<bar>i\<bar>"
    by (simp add: digits_value)
  ultimately show ?thesis by blast
qed

lemma str_nospace: "c \<in> set (str i) \<Longrightarrow> \<not> isspace c"
  by (auto simp: str_def isspace_def dest: digits_nospace split: if_splits)

lemma pair_notation_nospace: "\<forall>c\<in>set (pair_notation a b). \<not> isspace c"
  by (auto simp: pair_notation_def isspace_def dest: str_nospace)

lemma pair_notation_R: "pair_notation a b = CHR ''R'' # tl (pair_notation a b)"
  by (simp add: pair_notation_def)

lemma startswith_self: "startswith (p @ r) p"
  by (simp add: startswith_iff)

lemma startswith_refl: "startswith p p"
  using startswith_iff [of p p] by simp

lemma line_tokens:
  "split (''   1 '' @ pair_notation a b @ ''  =  1.5 0.1 0.2 2.5'') =
     [''1'', pair_notation a b, ''='', ''1.5'', ''0.1'', ''0.2'', ''2.5'']"
proof -
  have ne: "pair_notation a b \<noteq> []" by (simp add: pair_notation_def)
  have "split (''   1 '' @ pair_notation a b @ ''  =  1.5 0.1 0.2 2.5'') =
     ''1'' # split_from [] (pair_notation a b @ ''  =  1.5 0.1 0.2 2.5'')"
    by (simp add: split_def isspace_def)
  also have "split_from [] (pair_notation a b @ ''  =  1.5 0.1 0.2 2.5'') =
     split_from (pair_notation a b) ''  =  1.5 0.1 0.2 2.5''"
    using split_from_nospace [OF pair_notation_nospace, where cur = "[]"] by simp
  also have "\<dots> = [pair_notation a b, ''='', ''1.5'', ''0.1'', ''0.2'', ''2.5'']"
    using ne by (simp add: isspace_def)
  finally show ?thesis by simp
qed

lemma line_find: "find_str (''   1 '' @ pair_notation a b @ rest) (pair_notation a b) = 5"
proof -
  obtain t where t: "pair_notation a b = CHR ''R'' # t"
    using pair_notation_R by blast
  have "startswith (pair_notation a b @ rest) (pair_notation a b)"
    by (rule startswith_self)
  then have "find_str (pair_notation a b @ rest) (pair_notation a b) = 0"
    by (simp add: t)
  then show ?thesis by (simp add: t)
qed

text \<open>
  On the trace of that one line \<^verbatim>\<open>plot_R\<close> returns the numbers at tokens 3 and 6,
  whatever the two integers are.
\<close>

lemma plot_R_tagged_line:
  assumes "float ''1.5'' = Some x" and "float ''2.5'' = Some y"
  shows "plot_R float [''   1 '' @ pair_notation a b @ ''  =  1.5 0.1 0.2 2.5''] a b = Inr [x, y]"
proof -
  define line where "line = ''   1 '' @ pair_notation a b @ ''  =  1.5 0.1 0.2 2.5''"
  have toks: "split line = [''1'', pair_notation a b, ''='', ''1.5'', ''0.1'', ''0.2'', ''2.5'']"
    unfolding line_def by (rule line_tokens)
  have pos: "find_str line (pair_notation a b) = 5"
    unfolding line_def by (rule line_find)
  have "selects (pair_notation a b) line = Inr True"
    by (simp add: selects_def split_strip toks pos getitem_def startswith_refl)
  then have "rows_with_R_pairs (pair_notation a b) [line] =
    Inr [[''1'', pair_notation a b, ''='', ''1.5'', ''0.1'', ''0.2'', ''2.5'']]"
    by (simp add: toks)
  then have "plot_R float [line] a b = Inr [x, y]"
    using assms by (simp add: plot_R_def getitem_def to_float_def)
  then show ?thesis unfolding line_def .
qed

subsection \<open>Running the functions\<close>

text \<open>The definitions that \<open>simp\<close> unfolds to run the functions on a concrete trace.\<close>

lemmas ev = plot_R_def pair_notation_def str_def digits.simps selects_def split_def strip_def
  isspace_def getitem_def to_float_def float_decimal_def unsigned_decimal_def isdigit_def
  plot_energy_def energy_line_def

section \<open>The claims\<close>

text \<open>
  In the statements, a line is \<^emph>\<open>selected\<close> by \<^verbatim>\<open>plot_R\<close> for a tag when the
  condition of the comprehension is true of it, \<open>selects tag line = Inr True\<close>, and by
  \<^verbatim>\<open>plot_energy\<close> when \<open>energy_line line\<close> holds. The token at index \<open>i\<close> of a line is
  \<open>split line ! i\<close>.
\<close>

subsection \<open>C1: the values \<^verbatim>\<open>plot_R\<close> returns\<close>

text \<open>
  \<^bold>\<open>C1, as stated, fails.\<close> The trace below has exactly one selected line for the tag of
  1 and 2; that line has seven tokens, and its tokens at 3 and 6 parse. Yet \<^verbatim>\<open>plot_R\<close>
  raises \<^verbatim>\<open>IndexError\<close>: on the first line, which is not selected, the condition of the
  comprehension finds the tag at index 2 and then asks for the second token of a line that
  has one.
\<close>

theorem plot_R_selected_lines_counterexample:
  "map (selects (pair_notation 1 2)) [''==R(1,2)'', ''   1 R(1,2)  =  1.5 0.1 0.2 2.5'']
     = [Inl IndexError, Inr True]
   \<and> split ''   1 R(1,2)  =  1.5 0.1 0.2 2.5'' = [''1'', ''R(1,2)'', ''='', ''1.5'', ''0.1'', ''0.2'', ''2.5'']
   \<and> float_decimal ''1.5'' = Some (3 / 2) \<and> float_decimal ''2.5'' = Some (5 / 2)
   \<and> plot_R float_decimal [''==R(1,2)'', ''   1 R(1,2)  =  1.5 0.1 0.2 2.5''] 1 2 = Inl IndexError"
  by (simp add: ev)

text \<open>
  \<^bold>\<open>C1, amended.\<close> Let every line in which the tag first occurs at index 2 or later
  have at least two tokens (so that the condition raises on no line). If the trace has exactly
  \<open>k \<ge> 1\<close> selected lines \<open>sel\<close>, each with at least seven tokens whose tokens at 3 and 6
  parse, then \<^verbatim>\<open>plot_R\<close> returns a list of length \<open>k + 1\<close>: first the number at token 3
  of the first selected line, then, in the order of the trace, the number at token 6 of each
  selected line, the first included.
\<close>

theorem plot_R_selected_lines:
  assumes noraise: "\<forall>line\<in>set f. 1 < find_str line (pair_notation a b) \<longrightarrow> 2 \<le> length (split line)"
    and sel: "sel = filter (\<lambda>line. selects (pair_notation a b) line = Inr True) f"
    and k: "length sel = k" "1 \<le> k"
    and wf: "\<forall>line\<in>set sel. 7 \<le> length (split line)
               \<and> float (split line ! 3) \<noteq> None \<and> float (split line ! 6) \<noteq> None"
  shows "\<exists>vs. plot_R float f a b = Inr vs \<and> length vs = k + 1
     \<and> map Some vs = float (split (sel ! 0) ! 3) # map (\<lambda>line. float (split line ! 6)) sel"
proof -
  let ?tag = "pair_notation a b"
  have "\<forall>line\<in>set f. selects ?tag line \<noteq> Inl IndexError"
    using noraise by (auto simp: selects_def split_strip getitem_def)
  then have rows: "rows_with_R_pairs ?tag f = Inr (map split sel)"
    unfolding sel by (rule rows_ok)
  from k obtain l0 rest where l0: "sel = l0 # rest" by (cases sel) auto
  with wf obtain v0 where v0: "float (split l0 ! 3) = Some v0" and len0: "3 < length (split l0)"
    by fastforce
  have "\<forall>item\<in>set (map split sel). 6 < length item \<and> float (item ! 6) \<noteq> None"
    using wf by fastforce
  from append_items_ok [OF this, of "[v0]"] obtain vs where
    vs: "append_items float [v0] (map split sel) = Inr ([v0] @ vs)"
      "map Some vs = map (\<lambda>item. float (item ! 6)) (map split sel)"
    by blast
  have "plot_R float f a b = Inr (v0 # vs)"
    using rows l0 v0 len0 vs(1) by (simp add: plot_R_def getitem_def to_float_def)
  moreover have "length (v0 # vs) = k + 1"
    using vs(2) k(1) by (metis length_map length_Cons Suc_eq_plus1)
  moreover have "map Some (v0 # vs) = float (split (sel ! 0) ! 3) # map (\<lambda>line. float (split line ! 6)) sel"
    using vs(2) v0 l0 by (simp add: comp_def)
  ultimately show ?thesis by (intro exI [of _ "v0 # vs"] conjI)
qed

theorem plot_R_selected_lines_witness:
  "list_all (\<lambda>line. \<not> 1 < find_str line (pair_notation 1 2) \<or> 2 \<le> length (split line))
     [''  Coordinate  Previous  Force  Change  New'', ''   1 R(1,2)  =  1.5 0.1 0.2 1.7'',
      ''   2 R(1,3)  =  2.5 0.1 0.2 2.7'', ''   1 R(1,2)  =  1.7 0.0 0.1 1.8'']
   \<and> filter (\<lambda>line. selects (pair_notation 1 2) line = Inr True)
     [''  Coordinate  Previous  Force  Change  New'', ''   1 R(1,2)  =  1.5 0.1 0.2 1.7'',
      ''   2 R(1,3)  =  2.5 0.1 0.2 2.7'', ''   1 R(1,2)  =  1.7 0.0 0.1 1.8'']
     = [''   1 R(1,2)  =  1.5 0.1 0.2 1.7'', ''   1 R(1,2)  =  1.7 0.0 0.1 1.8'']
   \<and> plot_R float_decimal
     [''  Coordinate  Previous  Force  Change  New'', ''   1 R(1,2)  =  1.5 0.1 0.2 1.7'',
      ''   2 R(1,3)  =  2.5 0.1 0.2 2.7'', ''   1 R(1,2)  =  1.7 0.0 0.1 1.8''] 1 2
     = Inr [15 / 10, 17 / 10, 18 / 10]"
proof -
  let ?f = "[''  Coordinate  Previous  Force  Change  New'', ''   1 R(1,2)  =  1.5 0.1 0.2 1.7'',
      ''   2 R(1,3)  =  2.5 0.1 0.2 2.7'', ''   1 R(1,2)  =  1.7 0.0 0.1 1.8'']"
  let ?sel = "[''   1 R(1,2)  =  1.5 0.1 0.2 1.7'', ''   1 R(1,2)  =  1.7 0.0 0.1 1.8'']"
  have h1: "\<forall>line\<in>set ?f. 1 < find_str line (pair_notation 1 2) \<longrightarrow> 2 \<le> length (split line)"
    by (simp add: ev)
  have h2: "?sel = filter (\<lambda>line. selects (pair_notation 1 2) line = Inr True) ?f"
    by (simp add: ev)
  have h3: "length ?sel = 2" by simp
  have h4: "1 \<le> (2::nat)" by simp
  have h5: "\<forall>line\<in>set ?sel. 7 \<le> length (split line)
               \<and> float_decimal (split line ! 3) \<noteq> None \<and> float_decimal (split line ! 6) \<noteq> None"
    by (simp add: ev del: not_None_eq)
  have t: "float_decimal (split (?sel ! 0) ! 3) # map (\<lambda>line. float_decimal (split line ! 6)) ?sel
    = [Some (15 / 10 :: rat), Some (17 / 10), Some (18 / 10)]"
    by (simp add: ev)
  have "\<exists>vs. plot_R float_decimal ?f 1 2 = Inr vs \<and> length vs = 2 + 1
     \<and> map Some vs = map Some [15 / 10 :: rat, 17 / 10, 18 / 10]"
    using plot_R_selected_lines [OF h1 h2 h3 h4 h5] unfolding t by simp
  then obtain vs where r: "plot_R float_decimal ?f 1 2 = Inr vs"
    and m: "map Some vs = map Some [15 / 10 :: rat, 17 / 10, 18 / 10]"
    by (elim exE conjE)
  from m have "vs = [15 / 10, 17 / 10, 18 / 10]"
    by (simp only: inj_map_eq_map [OF inj_Some])
  with r have "plot_R float_decimal ?f 1 2 = Inr [15 / 10, 17 / 10, 18 / 10]"
    by simp
  with h1 h2 show ?thesis by (simp add: list_all_iff)
qed

subsection \<open>C2: which lines \<^verbatim>\<open>plot_R\<close> selects\<close>

text \<open>
  \<^bold>\<open>C2, as stated, fails.\<close> The line below contains the tag of 1 and 2, and the second
  token of the stripped line starts with the tag, but the line is not selected: the tag first
  occurs at index 0, and the condition asks for \<^verbatim>\<open>line.find(pair_notation) > 1\<close>.
\<close>

theorem selects_counterexample:
  "''R(1,2) R(1,2) = 1.5 0.1 0.2 2.5'' = [] @ pair_notation 1 2 @ '' R(1,2) = 1.5 0.1 0.2 2.5''
   \<and> split (strip ''R(1,2) R(1,2) = 1.5 0.1 0.2 2.5'') ! 1 = ''R(1,2)''
   \<and> startswith (split (strip ''R(1,2) R(1,2) = 1.5 0.1 0.2 2.5'') ! 1) (pair_notation 1 2)
   \<and> find_str ''R(1,2) R(1,2) = 1.5 0.1 0.2 2.5'' (pair_notation 1 2) = 0
   \<and> selects (pair_notation 1 2) ''R(1,2) R(1,2) = 1.5 0.1 0.2 2.5'' = Inr False"
  by (simp add: ev)

text \<open>
  \<^bold>\<open>C2, amended.\<close> A line is selected if and only if the tag first occurs in it at index
  2 or later (\<^verbatim>\<open>line.find(pair_notation) > 1\<close>) and the stripped line has a second token
  that starts with the tag. So a selected line contains the tag and has a second token that
  starts with it; in particular a line that contains the tag, but whose second token does not
  start with the tag, is never selected.
\<close>

theorem selects_iff:
  "(selects tag line = Inr True) =
     (1 < find_str line tag \<and> 2 \<le> length (split (strip line))
      \<and> startswith (split (strip line) ! 1) tag)
   \<and> (selects tag line = Inr True \<longrightarrow>
        (\<exists>pre post. line = pre @ tag @ post)
        \<and> 2 \<le> length (split (strip line)) \<and> startswith (split (strip line) ! 1) tag)"
proof -
  have iff: "(selects tag line = Inr True) =
     (1 < find_str line tag \<and> 2 \<le> length (split (strip line))
      \<and> startswith (split (strip line) ! 1) tag)"
    by (auto simp: selects_def getitem_def)
  have "\<exists>pre post. line = pre @ tag @ post" if "1 < find_str line tag"
    using find_str_occurs [of line tag] that by auto
  with iff show ?thesis by blast
qed

theorem selects_iff_witness:
  "selects (pair_notation 1 2) ''   1 R(1,2)  =  1.5 0.1 0.2 2.5'' = Inr True
   \<and> find_str ''   1 R(1,2)  =  1.5 0.1 0.2 2.5'' (pair_notation 1 2) = 5
   \<and> split (strip ''   1 R(1,2)  =  1.5 0.1 0.2 2.5'') ! 1 = ''R(1,2)''
   \<and> ''   1 R(1,3)  =  R(1,2) 0.1 0.2 2.5'' = ''   1 R(1,3)  =  '' @ pair_notation 1 2 @ '' 0.1 0.2 2.5''
   \<and> split (strip ''   1 R(1,3)  =  R(1,2) 0.1 0.2 2.5'') ! 1 = ''R(1,3)''
   \<and> selects (pair_notation 1 2) ''   1 R(1,3)  =  R(1,2) 0.1 0.2 2.5'' = Inr False"
proof -
  have a: "find_str ''   1 R(1,2)  =  1.5 0.1 0.2 2.5'' (pair_notation 1 2) = 5"
    by (simp add: ev)
  have b: "split (strip ''   1 R(1,2)  =  1.5 0.1 0.2 2.5'') = [''1'', ''R(1,2)'', ''='', ''1.5'', ''0.1'', ''0.2'', ''2.5'']"
    by (simp add: ev)
  have c: "pair_notation 1 2 = ''R(1,2)''" by (simp add: ev)
  have s: "selects (pair_notation 1 2) ''   1 R(1,2)  =  1.5 0.1 0.2 2.5'' = Inr True"
    using selects_iff [of "pair_notation 1 2" "''   1 R(1,2)  =  1.5 0.1 0.2 2.5''"] a b c by simp
  have d: "''   1 R(1,3)  =  R(1,2) 0.1 0.2 2.5'' = ''   1 R(1,3)  =  '' @ pair_notation 1 2 @ '' 0.1 0.2 2.5''"
    by (simp add: c)
  have e: "split (strip ''   1 R(1,3)  =  R(1,2) 0.1 0.2 2.5'') = [''1'', ''R(1,3)'', ''='', ''R(1,2)'', ''0.1'', ''0.2'', ''2.5'']"
    by (simp add: ev)
  have n: "selects (pair_notation 1 2) ''   1 R(1,3)  =  R(1,2) 0.1 0.2 2.5'' = Inr False"
    by (simp add: ev)
  show ?thesis using s a b d e n by simp
qed

subsection \<open>C3: scenario A\<close>

text \<open>
  \<^bold>\<open>C3, as stated, fails.\<close> The line of scenario A has six tokens, so there is no token
  at index 6: \<^verbatim>\<open>plot_R(1, 2)\<close> reads \<^verbatim>\<open>1.234\<close> at index 3 and then raises
  \<^verbatim>\<open>IndexError\<close> in the loop.
\<close>

theorem plot_R_scenario_A_counterexample:
  "split ''  R(1,2)  R(1,2)     =   1.234   ...  5.678  '' =
     [''R(1,2)'', ''R(1,2)'', ''='', ''1.234'', ''...'', ''5.678'']
   \<and> plot_R float_decimal [''  R(1,2)  R(1,2)     =   1.234   ...  5.678  ''] 1 2 = Inl IndexError"
  by (simp add: ev)

text \<open>
  \<^bold>\<open>C3, amended.\<close> Whenever \<^verbatim>\<open>float\<close> parses \<^verbatim>\<open>1.234\<close> to \<open>x\<close> and
  \<^verbatim>\<open>5.678\<close> to \<open>y\<close>: on the one-line trace of scenario A, \<^verbatim>\<open>plot_R(1, 2)\<close> raises
  \<^verbatim>\<open>IndexError\<close>; on the same line with one more token before \<^verbatim>\<open>5.678\<close>, which
  puts \<^verbatim>\<open>5.678\<close> at index 6, it returns \<open>[x, y]\<close>.
\<close>

theorem plot_R_scenario_A:
  assumes "float ''1.234'' = Some x" and "float ''5.678'' = Some y"
  shows "plot_R float [''  R(1,2)  R(1,2)     =   1.234   ...  5.678  ''] 1 2 = Inl IndexError
    \<and> plot_R float [''  R(1,2)  R(1,2)     =   1.234   ...  ...  5.678  ''] 1 2 = Inr [x, y]"
  using assms by (simp add: ev)

theorem plot_R_scenario_A_witness:
  "float_decimal ''1.234'' = Some (1234 / 1000) \<and> float_decimal ''5.678'' = Some (5678 / 1000)
   \<and> plot_R float_decimal [''  R(1,2)  R(1,2)     =   1.234   ...  5.678  ''] 1 2 = Inl IndexError
   \<and> plot_R float_decimal [''  R(1,2)  R(1,2)     =   1.234   ...  ...  5.678  ''] 1 2
     = Inr [1234 / 1000, 5678 / 1000]"
proof -
  have a: "float_decimal ''1.234'' = Some (1234 / 1000)" by (simp add: ev)
  have b: "float_decimal ''5.678'' = Some (5678 / 1000)" by (simp add: ev)
  show ?thesis using a b plot_R_scenario_A [OF a b] by simp
qed

subsection \<open>C4: no selected line\<close>

text \<open>
  \<^bold>\<open>C4.\<close> When no line of the trace is selected for the tag of \<open>a\<close> and \<open>b\<close>,
  \<^verbatim>\<open>plot_R\<close> returns no list: it raises \<^verbatim>\<open>IndexError\<close>, the exception of an index out
  of range (from \<^verbatim>\<open>rows_with_R_pairs[0]\<close> on the empty list, or already from the
  condition of the comprehension).
\<close>

theorem plot_R_no_selected_line:
  assumes "\<forall>line\<in>set f. selects (pair_notation a b) line \<noteq> Inr True"
  shows "plot_R float f a b = Inl IndexError"
proof (cases "\<exists>line\<in>set f. selects (pair_notation a b) line = Inl IndexError")
  case True
  then show ?thesis by (auto simp: plot_R_def dest: rows_raise)
next
  case False
  then have "rows_with_R_pairs (pair_notation a b) f =
    Inr (map split (filter (\<lambda>l. selects (pair_notation a b) l = Inr True) f))"
    by (intro rows_ok) auto
  moreover have "filter (\<lambda>l. selects (pair_notation a b) l = Inr True) f = []"
    using assms by (auto simp: filter_empty_conv)
  ultimately show ?thesis by (simp add: plot_R_def getitem_def)
qed

theorem plot_R_no_selected_line_witness:
  "list_all (\<lambda>line. selects (pair_notation 1 2) line \<noteq> Inr True)
     [''   1 R(1,3)  =  1.5 0.1 0.2 2.5'', ''R(1,2) note'', ''text'']
   \<and> plot_R float_decimal [''   1 R(1,3)  =  1.5 0.1 0.2 2.5'', ''R(1,2) note'', ''text''] 1 2
     = Inl IndexError"
proof -
  have h: "\<forall>line\<in>set [''   1 R(1,3)  =  1.5 0.1 0.2 2.5'', ''R(1,2) note'', ''text''].
    selects (pair_notation 1 2) line \<noteq> Inr True"
    by (simp add: ev)
  show ?thesis using h plot_R_no_selected_line [OF h, of float_decimal] by (simp add: list_all_iff)
qed

subsection \<open>C5: the values \<^verbatim>\<open>plot_energy\<close> returns\<close>

text \<open>
  \<^bold>\<open>C5, as stated, fails.\<close> It is stated for every trace, but on a trace with a selected
  line of fewer than four tokens \<^verbatim>\<open>plot_energy\<close> returns nothing: it raises
  \<^verbatim>\<open>IndexError\<close>.
\<close>

theorem plot_energy_malformed_counterexample:
  "energy_line ''Current energy'' \<and> length (filter energy_line [''Current energy'']) = 1
   \<and> plot_energy float_decimal [''Current energy''] = Inl IndexError"
  by (simp add: ev)

text \<open>
  \<^bold>\<open>C5, amended.\<close> On every trace whose selected lines all have at least four tokens
  and a token at index 3 that parses, \<^verbatim>\<open>plot_energy\<close> returns one number for each selected
  line, in the order of the trace, read from the token at index 3 of that line. The length of
  the result is the number of selected lines; with no selected line the result is the empty
  list and nothing is raised.
\<close>

theorem plot_energy_well_formed:
  assumes "\<forall>line\<in>set f. energy_line line \<longrightarrow>
             4 \<le> length (split line) \<and> float (split line ! 3) \<noteq> None"
  shows "\<exists>vs. plot_energy float f = Inr vs
     \<and> length vs = length (filter energy_line f)
     \<and> map Some vs = map (\<lambda>line. float (split line ! 3)) (filter energy_line f)"
proof -
  from assms have "\<forall>line\<in>set f. energy_line line \<longrightarrow>
             3 < length (split line) \<and> float (split line ! 3) \<noteq> None"
    by auto
  then obtain vs where vs: "energy_values float f = Inr vs"
    "map Some vs = map (\<lambda>line. float (split line ! 3)) (filter energy_line f)"
    using energy_values_ok [of f float] by blast
  from vs(2) have "length vs = length (filter energy_line f)"
    by (metis length_map)
  with vs show ?thesis by (simp add: plot_energy_def)
qed

theorem plot_energy_well_formed_witness:
  "list_all (\<lambda>line. \<not> energy_line line \<or>
       4 \<le> length (split line) \<and> float_decimal (split line ! 3) \<noteq> None)
     [''junk'', ''Current energy = -40.1'', ''x Current energy'', ''  Current energy  =  -40.2'' @ [CHR 0x0A]]
   \<and> plot_energy float_decimal
       [''junk'', ''Current energy = -40.1'', ''x Current energy'', ''  Current energy  =  -40.2'' @ [CHR 0x0A]]
     = Inr [- 401 / 10, - 402 / 10]
   \<and> plot_energy float_decimal [''junk'', ''x Current energy''] = Inr []"
proof -
  have h: "\<forall>line\<in>set [''junk'', ''Current energy = -40.1'', ''x Current energy'', ''  Current energy  =  -40.2'' @ [CHR 0x0A]].
     energy_line line \<longrightarrow> 4 \<le> length (split line) \<and> float_decimal (split line ! 3) \<noteq> None"
    by (simp add: ev)
  have r: "plot_energy float_decimal
       [''junk'', ''Current energy = -40.1'', ''x Current energy'', ''  Current energy  =  -40.2'' @ [CHR 0x0A]]
     = Inr [- 401 / 10, - 402 / 10]"
    by (simp add: ev)
  have h0: "\<forall>line\<in>set [''junk'', ''x Current energy''].
     energy_line line \<longrightarrow> 4 \<le> length (split line) \<and> float_decimal (split line ! 3) \<noteq> None"
    by (simp add: ev)
  have f0: "filter energy_line [''junk'', ''x Current energy''] = []"
    by (simp add: ev)
  from plot_energy_well_formed [OF h0] f0
  have "plot_energy float_decimal [''junk'', ''x Current energy''] = Inr []"
    by auto
  with h r show ?thesis by (simp add: list_all_iff)
qed

subsection \<open>C6: a malformed selected line\<close>

text \<open>
  \<^bold>\<open>C6.\<close> When some line selected by \<^verbatim>\<open>plot_energy\<close> has fewer than four tokens, or a
  token at index 3 that \<^verbatim>\<open>float\<close> rejects, \<^verbatim>\<open>plot_energy\<close> returns no list: it raises
  \<^verbatim>\<open>IndexError\<close> or \<^verbatim>\<open>ValueError\<close>.
\<close>

theorem plot_energy_malformed_line:
  assumes "line \<in> set f" and "energy_line line"
    and "length (split line) < 4 \<or> float (split line ! 3) = None"
  shows "plot_energy float f = Inl IndexError \<or> plot_energy float f = Inl ValueError"
proof -
  from assms obtain e where "energy_values float f = Inl e"
    using energy_values_bad [of line f float] by auto
  then show ?thesis
    using energy_values_error [of float f e] by (auto simp: plot_energy_def)
qed

theorem plot_energy_malformed_line_witness:
  "energy_line ''Current energy ='' \<and> length (split ''Current energy ='') = 3
   \<and> plot_energy float_decimal [''Current energy = -40.1'', ''Current energy =''] = Inl IndexError
   \<and> energy_line ''Current energy = n/a'' \<and> float_decimal (split ''Current energy = n/a'' ! 3) = None
   \<and> plot_energy float_decimal [''Current energy = -40.1'', ''Current energy = n/a''] = Inl ValueError"
proof -
  have a1: "''Current energy ='' \<in> set [''Current energy = -40.1'', ''Current energy ='']" by simp
  have a2: "energy_line ''Current energy =''" by (simp add: ev)
  have a3: "length (split ''Current energy ='') = 3" by (simp add: ev)
  have b1: "''Current energy = n/a'' \<in> set [''Current energy = -40.1'', ''Current energy = n/a'']" by simp
  have b2: "energy_line ''Current energy = n/a''" by (simp add: ev)
  have b3: "float_decimal (split ''Current energy = n/a'' ! 3) = None" by (simp add: ev)
  have a4: "plot_energy float_decimal [''Current energy = -40.1'', ''Current energy =''] \<noteq> Inl ValueError"
    by (simp add: ev)
  have b4: "plot_energy float_decimal [''Current energy = -40.1'', ''Current energy = n/a''] \<noteq> Inl IndexError"
    by (simp add: ev)
  from a3 have a3': "length (split ''Current energy ='') < 4 \<or> float_decimal (split ''Current energy ='' ! 3) = None"
    by simp
  from b3 have b3': "length (split ''Current energy = n/a'') < 4 \<or> float_decimal (split ''Current energy = n/a'' ! 3) = None"
    by simp
  show ?thesis
    using plot_energy_malformed_line [of "''Current energy =''" _ float_decimal, OF a1 a2 a3']
      plot_energy_malformed_line [of "''Current energy = n/a''" _ float_decimal, OF b1 b2 b3']
      a2 a3 a4 b2 b3 b4 by blast
qed

subsection \<open>C7: calling twice\<close>

text \<open>
  \<^bold>\<open>C7.\<close> A call of \<^verbatim>\<open>plot_R\<close> or of \<^verbatim>\<open>plot_energy\<close> leaves the files and
  \<^verbatim>\<open>molecule_name\<close> as they were, and a second call with the same arguments, made after
  the first, gives the same result as the first.
\<close>

theorem calls_repeatable:
  "snd (call_plot_R float a b w) = w
   \<and> call_plot_R float a b (snd (call_plot_R float a b w)) = call_plot_R float a b w
   \<and> snd (call_plot_energy float w) = w
   \<and> call_plot_energy float (snd (call_plot_energy float w)) = call_plot_energy float w"
proof -
  have r: "snd (call_plot_R float a b w) = w"
    by (simp add: call_plot_R_def split: sum.splits)
  have e: "snd (call_plot_energy float w) = w"
    by (simp add: call_plot_energy_def split: sum.splits)
  show ?thesis by (simp add: r e)
qed

subsection \<open>C8: the condition of the comprehension can raise\<close>

text \<open>
  \<^bold>\<open>C8.\<close> A line in which the tag first occurs at index 2 or later
  (\<^verbatim>\<open>line.find(pair_notation) > 1\<close>) and that has fewer than two tokens makes
  \<^verbatim>\<open>line.strip().split()[1]\<close> raise \<^verbatim>\<open>IndexError\<close> in the condition of the
  comprehension: the line is not selected, and \<^verbatim>\<open>plot_R\<close> raises on every trace that
  contains it. The line \<^verbatim>\<open>==R(1,2)\<close> is one, for \<open>a = 1\<close> and \<open>b = 2\<close>.
\<close>

theorem selection_test_raises:
  assumes "line \<in> set f"
    and "1 < find_str line (pair_notation a b)"
    and "length (split line) < 2"
  shows "selects (pair_notation a b) line = Inl IndexError
    \<and> rows_with_R_pairs (pair_notation a b) f = Inl IndexError
    \<and> plot_R float f a b = Inl IndexError"
proof -
  have s: "selects (pair_notation a b) line = Inl IndexError"
    using assms(2,3) by (simp add: selects_def split_strip getitem_def)
  then have "rows_with_R_pairs (pair_notation a b) f = Inl IndexError"
    using assms(1) by (rule rows_raise[rotated])
  then show ?thesis using s by (simp add: plot_R_def)
qed

theorem selection_test_raises_witness:
  "find_str ''==R(1,2)'' (pair_notation 1 2) = 2 \<and> split ''==R(1,2)'' = [''==R(1,2)'']
   \<and> selects (pair_notation 1 2) ''==R(1,2)'' = Inl IndexError
   \<and> rows_with_R_pairs (pair_notation 1 2) [''==R(1,2)''] = Inl IndexError
   \<and> plot_R float_decimal [''==R(1,2)''] 1 2 = Inl IndexError"
proof -
  have h1: "''==R(1,2)'' \<in> set [''==R(1,2)'']" by simp
  have h2: "1 < find_str ''==R(1,2)'' (pair_notation 1 2)" by (simp add: ev)
  have h3: "length (split ''==R(1,2)'') < 2" by (simp add: ev)
  have "find_str ''==R(1,2)'' (pair_notation 1 2) = 2" by (simp add: ev)
  moreover have "split ''==R(1,2)'' = [''==R(1,2)'']" by (simp add: ev)
  ultimately show ?thesis
    using selection_test_raises [OF h1 h2 h3, of float_decimal] by simp
qed

subsection \<open>C9: \<^verbatim>\<open>plot_energy\<close> reads the selected lines only\<close>

text \<open>
  \<^bold>\<open>C9.\<close> The result of \<^verbatim>\<open>plot_energy\<close> depends only on the lines whose stripped
  content starts with \<^verbatim>\<open>Current energy\<close>: two traces with the same subsequence of such
  lines give the same result, a raised exception included. So inserting, removing or changing
  other lines changes nothing and raises nothing.
\<close>

theorem plot_energy_only_energy_lines:
  "filter energy_line f = filter energy_line g \<Longrightarrow> plot_energy float f = plot_energy float g"
  unfolding plot_energy_def by (metis energy_values_filter)

theorem plot_energy_only_energy_lines_witness:
  "filter energy_line [''junk'', ''Current energy = -40.1'', ''Current''] =
   filter energy_line [''Current energy = -40.1'', ''R(1,2) note'']
   \<and> plot_energy float_decimal [''junk'', ''Current energy = -40.1'', ''Current''] =
     plot_energy float_decimal [''Current energy = -40.1'', ''R(1,2) note'']
   \<and> plot_energy float_decimal [''Current energy = -40.1'', ''R(1,2) note''] = Inr [- 401 / 10]"
proof -
  have h: "filter energy_line [''junk'', ''Current energy = -40.1'', ''Current''] =
   filter energy_line [''Current energy = -40.1'', ''R(1,2) note'']"
    by (simp add: energy_line_def strip_def isspace_def)
  have r: "plot_energy float_decimal [''Current energy = -40.1'', ''R(1,2) note''] = Inr [- 401 / 10]"
    by (simp add: ev)
  show ?thesis using h r plot_energy_only_energy_lines [OF h, of float_decimal] by simp
qed

subsection \<open>C10: any two integers\<close>

text \<open>
  \<^bold>\<open>C10.\<close> \<^verbatim>\<open>plot_R\<close> checks nothing about \<open>a\<close> and \<open>b\<close>: for all integers, zero
  and negative ones included, and for every trace, its outcome is the one that the scan for
  the tag \<^verbatim>\<open>R(\<close>, \<open>str a\<close>, a comma, \<open>str b\<close>, \<^verbatim>\<open>)\<close> dictates, and no other exception is
  raised. In the order of the code:
  \<^item> \<^verbatim>\<open>IndexError\<close> when some line has its first occurrence of the tag at index 2 or later
    and fewer than two tokens;
  \<^item> otherwise, with \<open>sel\<close> the lines in which the tag first occurs at index 2 or later and
    whose second token starts with the tag: \<^verbatim>\<open>IndexError\<close> when \<open>sel\<close> is empty or its first
    line has fewer than four tokens, \<^verbatim>\<open>ValueError\<close> when the token at 3 of that line does
    not parse;
  \<^item> otherwise \<^verbatim>\<open>IndexError\<close> or \<^verbatim>\<open>ValueError\<close> at the first line of \<open>sel\<close> that has
    fewer than seven tokens or a token at 6 that does not parse;
  \<^item> otherwise the number at token 3 of the first line of \<open>sel\<close>, then the number at token 6
    of every line of \<open>sel\<close>.

  \<open>str a\<close> is the decimal numeral of \<open>a\<close>: digits that denote \<open>\<bar>a\<bar>\<close>, with no leading zero
  unless \<open>a = 0\<close>, after a minus sign when \<open>a < 0\<close>.
\<close>

theorem plot_R_any_integers:
  fixes a b :: int
  assumes tag: "tag = ''R('' @ str a @ '','' @ str b @ '')''"
    and sel: "sel = filter (\<lambda>line. 1 < find_str line tag \<and> 2 \<le> length (split line)
                                  \<and> startswith (split line ! 1) tag) f"
  shows "plot_R float f a b =
     (if \<exists>line\<in>set f. 1 < find_str line tag \<and> length (split line) < 2 then Inl IndexError
      else case sel of
        [] \<Rightarrow> Inl IndexError
      | first # _ \<Rightarrow>
          if length (split first) < 4 then Inl IndexError
          else if float (split first ! 3) = None then Inl ValueError
          else case dropWhile (\<lambda>line. 7 \<le> length (split line) \<and> float (split line ! 6) \<noteq> None) sel of
                 [] \<Rightarrow> Inr (the (float (split first ! 3)) # map (\<lambda>line. the (float (split line ! 6))) sel)
               | bad # _ \<Rightarrow> if length (split bad) < 7 then Inl IndexError else Inl ValueError)
    \<and> (\<exists>d. str a = (if a < 0 then CHR ''-'' # d else d) \<and> d \<noteq> [] \<and> list_all isdigit d
           \<and> int (number_of 0 d) = \<bar>a\<bar> \<and> (hd d = CHR ''0'') = (a = 0))"
proof -
  have t: "pair_notation a b = tag" by (simp add: tag pair_notation_def)
  let ?ok = "\<lambda>line. 7 \<le> length (split line) \<and> float (split line ! 6) \<noteq> None"
  have dw: "dropWhile (\<lambda>item. 7 \<le> length item \<and> float (item ! 6) \<noteq> None) (map split sel)
      = map split (dropWhile ?ok sel)"
    by (simp add: dropWhile_map comp_def)
  define tail6 where "tail6 = dropWhile ?ok sel"
  have loop: "append_items float acc (map split sel) =
     (case tail6 of
        [] \<Rightarrow> Inr (acc @ map (\<lambda>line. the (float (split line ! 6))) sel)
      | bad # _ \<Rightarrow> if length (split bad) < 7 then Inl IndexError else Inl ValueError)" for acc
  proof -
    have "append_items float acc (map split sel) =
      (case map split tail6 of
         [] \<Rightarrow> Inr (acc @ map (\<lambda>item. the (float (item ! 6))) (map split sel))
       | bad # _ \<Rightarrow> if length bad < 7 then Inl IndexError else Inl ValueError)"
      unfolding append_items_cases dw tail6_def ..
    then show ?thesis by (cases tail6) (simp_all add: comp_def)
  qed
  have "plot_R float f a b =
     (if \<exists>line\<in>set f. 1 < find_str line tag \<and> length (split line) < 2 then Inl IndexError
      else case sel of
        [] \<Rightarrow> Inl IndexError
      | first # _ \<Rightarrow>
          if length (split first) < 4 then Inl IndexError
          else if float (split first ! 3) = None then Inl ValueError
          else case tail6 of
                 [] \<Rightarrow> Inr (the (float (split first ! 3)) # map (\<lambda>line. the (float (split line ! 6))) sel)
               | bad # _ \<Rightarrow> if length (split bad) < 7 then Inl IndexError else Inl ValueError)"
  proof (cases "\<exists>line\<in>set f. 1 < find_str line tag \<and> length (split line) < 2")
    case True
    then show ?thesis by (simp add: plot_R_def t rows_cases)
  next
    case False
    then have rows: "rows_with_R_pairs tag f = Inr (map split sel)"
      by (simp add: rows_cases sel)
    show ?thesis
    proof (cases sel)
      case Nil
      with False rows show ?thesis by (simp add: plot_R_def t getitem_def)
    next
      case (Cons first rest)
      have "plot_R float f a b =
        (if length (split first) < 4 then Inl IndexError
         else if float (split first ! 3) = None then Inl ValueError
         else append_items float [the (float (split first ! 3))] (map split sel))"
        using rows Cons by (auto simp: plot_R_def t getitem_def to_float_def split: option.splits)
      then have "plot_R float f a b =
        (if length (split first) < 4 then Inl IndexError
         else if float (split first ! 3) = None then Inl ValueError
         else case tail6 of
                [] \<Rightarrow> Inr (the (float (split first ! 3)) # map (\<lambda>line. the (float (split line ! 6))) sel)
              | bad # _ \<Rightarrow> if length (split bad) < 7 then Inl IndexError else Inl ValueError)"
        unfolding loop by (cases tail6) (simp_all del: not_None_eq)
      then show ?thesis unfolding Cons by (simp only: False if_False list.case)
    qed
  qed
  then show ?thesis unfolding tail6_def using str_decimal [of a] by (simp del: not_None_eq)
qed

theorem plot_R_any_integers_witness:
  "''R(-3,0)'' = ''R('' @ str (- 3) @ '','' @ str 0 @ '')''
   \<and> [''   1 R(-3,0)  =  1.5 0.1 0.2 2.5''] =
     filter (\<lambda>line. 1 < find_str line ''R(-3,0)'' \<and> 2 \<le> length (split line)
               \<and> startswith (split line ! 1) ''R(-3,0)'')
       [''   1 R(-3,0)  =  1.5 0.1 0.2 2.5'', ''   2 R(1,3)  =  9.5 0.1 0.2 8.5'']
   \<and> plot_R float_decimal
       [''   1 R(-3,0)  =  1.5 0.1 0.2 2.5'', ''   2 R(1,3)  =  9.5 0.1 0.2 8.5''] (- 3) 0
     = Inr [3 / 2, 5 / 2]
   \<and> plot_R float_decimal [''   2 R(1,3)  =  9.5 0.1 0.2 8.5''] (- 3) 0 = Inl IndexError"
proof -
  let ?f = "[''   1 R(-3,0)  =  1.5 0.1 0.2 2.5'', ''   2 R(1,3)  =  9.5 0.1 0.2 8.5'']"
  let ?g = "[''   2 R(1,3)  =  9.5 0.1 0.2 8.5'']"
  have tg: "''R(-3,0)'' = ''R('' @ str (- 3) @ '','' @ str 0 @ '')''"
    by (simp add: ev)
  have sl: "[''   1 R(-3,0)  =  1.5 0.1 0.2 2.5''] =
     filter (\<lambda>line. 1 < find_str line ''R(-3,0)'' \<and> 2 \<le> length (split line)
               \<and> startswith (split line ! 1) ''R(-3,0)'') ?f"
    by (simp add: ev)
  have sg: "[] =
     filter (\<lambda>line. 1 < find_str line ''R(-3,0)'' \<and> 2 \<le> length (split line)
               \<and> startswith (split line ! 1) ''R(-3,0)'') ?g"
    by (simp add: ev)
  have r: "plot_R float_decimal ?f (- 3) 0 = Inr [3 / 2, 5 / 2]"
    unfolding plot_R_any_integers [OF tg sl, where float = float_decimal, THEN conjunct1]
    by (simp add: ev del: not_None_eq)
  have e: "plot_R float_decimal ?g (- 3) 0 = Inl IndexError"
    unfolding plot_R_any_integers [OF tg sg, where float = float_decimal, THEN conjunct1]
    by (simp add: ev del: not_None_eq)
  from tg sl r e show ?thesis by (intro conjI)
qed

end
